theory Spec2Isabelle
  imports
    Complex_Main
    "HOL-Library.Char_ord"
    "HOL-Library.List_Lexorder"
    "HOL-Library.Multiset"
begin

section \<open>The geolocation record and the database reader\<close>

text \<open>
  The attributes of a \<open>geoip2\<close> city record that \<open>geolocate.py\<close> reads. Each of them
  may be \<open>None\<close>. Coordinates are floats; a finite float denotes a real number, and
  Python's truth value of a float is \<open>x \<noteq> 0\<close>.
\<close>

record geo =
  rec_city_name :: "string option"            \<comment> \<open>\<open>record.city.name\<close>\<close>
  rec_subdivision_name :: "string option"     \<comment> \<open>\<open>record.subdivisions.most_specific.name\<close>\<close>
  rec_country_name :: "string option"         \<comment> \<open>\<open>record.country.name\<close>\<close>
  rec_country_iso_code :: "string option"     \<comment> \<open>\<open>record.country.iso_code\<close>\<close>
  rec_latitude :: "real option"               \<comment> \<open>\<open>record.location.latitude\<close>\<close>
  rec_longitude :: "real option"              \<comment> \<open>\<open>record.location.longitude\<close>\<close>
  rec_accuracy_radius :: "int option"         \<comment> \<open>\<open>record.location.accuracy_radius\<close>\<close>

text \<open>
  What \<open>reader.city(ip)\<close> can raise: the two exceptions \<open>read_record\<close> absorbs, and
  any other exception, which aborts the run. Each carries its message.
\<close>

datatype exn = AddressNotFoundError string | ValueError string | OtherError string

fun exn_str :: "exn \<Rightarrow> string" where
  "exn_str (AddressNotFoundError m) = m"
| "exn_str (ValueError m) = m"
| "exn_str (OtherError m) = m"

type_synonym reader = "string \<Rightarrow> exn + geo"

text \<open>\<open>read_record\<close>, lines 105 to 113: \<open>None\<close> for the two address-level exceptions.\<close>

definition read_record :: "reader \<Rightarrow> string \<Rightarrow> exn + geo option" where
  "read_record reader ip =
     (case reader ip of
        Inr rec \<Rightarrow> Inr (Some rec)
      | Inl (AddressNotFoundError m) \<Rightarrow> Inr None
      | Inl (ValueError m) \<Rightarrow> Inr None
      | Inl (OtherError m) \<Rightarrow> Inl (OtherError m))"

section \<open>The result mapping\<close>

text \<open>
  \<open>result_dict\<close> is a \<open>defaultdict\<close> of lists. Python dictionaries keep the order in
  which keys were first inserted, and the report depends on it, so the mapping is an
  association list in insertion order. \<open>dict_extend d k vs\<close> is \<open>d[k].extend(vs)\<close>: a
  missing key is created with the empty list at the end.
\<close>

type_synonym result_dict = "(string \<times> string list) list"

fun dict_extend :: "result_dict \<Rightarrow> string \<Rightarrow> string list \<Rightarrow> result_dict" where
  "dict_extend [] k vs = [(k, vs)]"
| "dict_extend ((k', ws) # d) k vs =
     (if k' = k then (k', ws @ vs) # d else (k', ws) # dict_extend d k vs)"

text \<open>\<open>d[k] = v\<close> and \<open>dict(items)\<close>, used by \<open>main\<close> on the sorted items.\<close>

fun dict_set :: "result_dict \<Rightarrow> string \<Rightarrow> string list \<Rightarrow> result_dict" where
  "dict_set [] k v = [(k, v)]"
| "dict_set ((k', w) # d) k v =
     (if k' = k then (k', v) # d else (k', w) # dict_set d k v)"

definition dict_of :: "result_dict \<Rightarrow> result_dict" where
  "dict_of items = foldl (\<lambda>d (k, v). dict_set d k v) [] items"

section \<open>Rendering of numbers\<close>

text \<open>\<open>str\<close> of a Python integer, as the f-string of the radius line uses it.\<close>

definition digit_char :: "nat \<Rightarrow> char" where
  "digit_char d = ''0123456789'' ! d"

fun str_nat :: "nat \<Rightarrow> string" where
  "str_nat n = (if n < 10 then [digit_char n] else str_nat (n div 10) @ [digit_char (n mod 10)])"

declare str_nat.simps [simp del]

definition str_int :: "int \<Rightarrow> string" where
  "str_int i = (if i < 0 then CHR ''-'' # str_nat (nat (- i)) else str_nat (nat i))"

section \<open>The fields of a found record\<close>

text \<open>
  Lines 130 to 135 of \<open>get_records\<close>; each definition is the local variable of the same
  name.
\<close>

definition city :: "geo \<Rightarrow> string" where
  "city rec = (case rec_city_name rec of Some n \<Rightarrow> n | None \<Rightarrow> ''Unknown'')"

definition state :: "geo \<Rightarrow> string" where
  "state rec = (case rec_subdivision_name rec of Some n \<Rightarrow> n | None \<Rightarrow> ''Unknown'')"

definition country_name :: "geo \<Rightarrow> string" where
  "country_name rec = (case rec_country_name rec of Some n \<Rightarrow> n | None \<Rightarrow> ''Unknown'')"

definition country_iso :: "geo \<Rightarrow> string" where
  "country_iso rec =
     (case rec_country_iso_code rec of Some c \<Rightarrow> '' ('' @ c @ '')'' | None \<Rightarrow> '''')"

definition country_full :: "geo \<Rightarrow> string" where
  "country_full rec = country_name rec @ country_iso rec"

text \<open>
  Lines 137 to 145. A compiled pattern is the predicate
  \<open>\<lambda>s. search_pattern.search(s) is not None\<close>.
\<close>

definition add_record :: "(string \<Rightarrow> bool) option \<Rightarrow> geo \<Rightarrow> string \<Rightarrow> bool" where
  "add_record search_pattern rec ip =
     (case search_pattern of
        Some search \<Rightarrow>
          (let match_country = search (country_full rec);
               match_state = search (state rec);
               match_city = search (city rec);
               match_ip = search ip
           in match_country \<or> match_state \<or> match_city \<or> match_ip)
      | None \<Rightarrow> True)"

text \<open>
  Lines 157 to 165. \<open>fmt\<close> stands for Python's \<open>format(x, '0>3.9f')\<close> on floats, which
  is not code of this repository. The test \<open>latitude and longitude\<close> is on truth
  values: \<open>None\<close> and a zero coordinate are both false.
\<close>

definition truthy :: "real option \<Rightarrow> bool" where
  "truthy x = (case x of None \<Rightarrow> False | Some v \<Rightarrow> v \<noteq> 0)"

definition maps_url :: "(real \<Rightarrow> string) \<Rightarrow> geo \<Rightarrow> string" where
  "maps_url fmt rec =
     (let latitude = rec_latitude rec; longitude = rec_longitude rec
      in if truthy latitude \<and> truthy longitude
         then ''https://maps.google.com/maps?q='' @ fmt (the latitude) @ '','' @
              fmt (the longitude) @ ''&z=15''
         else ''Null'')"

definition radius :: "geo \<Rightarrow> string" where
  "radius rec = (case rec_accuracy_radius rec of Some n \<Rightarrow> str_int n | None \<Rightarrow> ''Null'')"

text \<open>The five lines of lines 167 to 173.\<close>

definition detail_block :: "(real \<Rightarrow> string) \<Rightarrow> geo \<Rightarrow> string list" where
  "detail_block fmt rec =
     [''Maps URL:   '' @ maps_url fmt rec,
      ''Radius(km): '' @ radius rec,
      ''Country:    '' @ country_full rec,
      ''State:      '' @ state rec,
      ''City:       '' @ city rec]"

text \<open>Lines 150 to 173: the update of \<open>result_dict\<close> for a record that is kept.\<close>

definition add_to_groups ::
  "(real \<Rightarrow> string) \<Rightarrow> string \<Rightarrow> geo \<Rightarrow> string \<Rightarrow> result_dict \<Rightarrow> result_dict" where
  "add_to_groups fmt group_by rec ip result_dict =
     (if group_by = ''country'' then dict_extend result_dict (country_full rec) [ip]
      else if group_by = ''state/region'' then
        dict_extend result_dict (state rec @ country_iso rec) [ip]
      else if group_by = ''city'' then
        dict_extend result_dict (city rec @ country_iso rec) [ip]
      else dict_extend result_dict ip (detail_block fmt rec))"

section \<open>\<open>get_records\<close>\<close>

text \<open>
  The loop of lines 120 to 175 with its two accumulators. An exception of the reader
  other than the two absorbed ones leaves the loop (\<open>Inl\<close>).
\<close>

fun get_records_loop ::
  "(real \<Rightarrow> string) \<Rightarrow> reader \<Rightarrow> string list \<Rightarrow> (string \<Rightarrow> bool) option \<Rightarrow> string list \<Rightarrow>
   string \<Rightarrow> result_dict \<Rightarrow> string list \<Rightarrow> exn + (result_dict \<times> string list)" where
  "get_records_loop fmt reader [] search_pattern filtered_ips group_by result_dict unknown_ips =
     Inr (result_dict, unknown_ips)"
| "get_records_loop fmt reader (ip # ip_list) search_pattern filtered_ips group_by
     result_dict unknown_ips =
     (if ip \<in> set filtered_ips then
        get_records_loop fmt reader ip_list search_pattern filtered_ips group_by
          result_dict unknown_ips
      else
        (case read_record reader ip of
           Inl e \<Rightarrow> Inl e
         | Inr (Some rec) \<Rightarrow>
             if \<not> add_record search_pattern rec ip then
               get_records_loop fmt reader ip_list search_pattern filtered_ips group_by
                 result_dict unknown_ips
             else
               get_records_loop fmt reader ip_list search_pattern filtered_ips group_by
                 (add_to_groups fmt group_by rec ip result_dict) unknown_ips
         | Inr None \<Rightarrow>
             get_records_loop fmt reader ip_list search_pattern filtered_ips group_by
               result_dict (unknown_ips @ [ip])))"

definition get_records ::
  "(real \<Rightarrow> string) \<Rightarrow> reader \<Rightarrow> string list \<Rightarrow> (string \<Rightarrow> bool) option \<Rightarrow> string list \<Rightarrow>
   string \<Rightarrow> exn + (result_dict \<times> string list)" where
  "get_records fmt reader ip_list search_pattern filtered_ips group_by =
     get_records_loop fmt reader ip_list search_pattern filtered_ips group_by [] []"

section \<open>\<open>main\<close>\<close>

text \<open>
  What \<open>main\<close> takes from outside the repository: the regular-expression engine
  (\<open>re.compile\<close> with a flag, \<open>None\<close> when it raises \<open>re.error\<close>; \<open>re.findall\<close> with the
  address pattern of line 206), the float formatting, and the opening of the database
  (\<open>geoip2.database.Reader\<close>).
\<close>

datatype re_flag = NOFLAG | IGNORECASE

record externals =
  re_compile :: "string \<Rightarrow> re_flag \<Rightarrow> (string \<Rightarrow> bool) option"
  re_findall_ips :: "string \<Rightarrow> string list"
  format_9f :: "real \<Rightarrow> string"
  Reader :: "string \<Rightarrow> exn + reader"

text \<open>
  The parsed arguments. An option with \<open>default=argparse.SUPPRESS\<close> is absent from the
  namespace when it was not given (\<open>None\<close> here). The file of \<open>--file\<close> is what
  \<open>is_file\<close>, \<open>stat\<close> and \<open>read_text\<close> show of it: no regular file, a file whose bytes
  are not text in the default encoding (so it is not empty), or a file with its text.
\<close>

datatype file_state = NotAFile | Undecodable | Text string

record args =
  arg_ip :: "string option"
  arg_file :: "file_state option"
  arg_db :: string
  arg_group :: string
  arg_search :: "string option"
  arg_filter :: "string list option"
  arg_limit :: int
  arg_show_not_found :: bool

text \<open>
  How a run ends without returning: \<open>parser.error\<close> (usage message, exit status 2) or an
  exception nobody catches.
\<close>

datatype failure = ParserError string | Uncaught string

text \<open>Line 188.\<close>

definition compile_search :: "externals \<Rightarrow> args \<Rightarrow> failure + (string \<Rightarrow> bool) option" where
  "compile_search ext a =
     (case arg_search a of
        None \<Rightarrow> Inr None
      | Some s \<Rightarrow>
          (case re_compile ext s IGNORECASE of
             None \<Rightarrow> Inl (Uncaught ''re.error'')
           | Some p \<Rightarrow> Inr (Some p)))"

text \<open>
  Lines 198 to 207: the slice \<open>[:limit]\<close>, where \<open>limit\<close> is \<open>None\<close> for an argument
  below 1.
\<close>

definition slice_limit :: "int \<Rightarrow> string list \<Rightarrow> string list" where
  "slice_limit n xs = (if n < 1 then xs else take (nat n) xs)"

text \<open>
  Lines 194 to 207, the branch of a file. Without \<open>--file\<close> the variable \<open>file\<close> is
  \<open>None\<close>, and \<open>file.is_file()\<close> raises.
\<close>

definition file_ip_list :: "externals \<Rightarrow> args \<Rightarrow> failure + string list" where
  "file_ip_list ext a =
     (case arg_file a of
        None \<Rightarrow> Inl (Uncaught ''AttributeError'')
      | Some NotAFile \<Rightarrow> Inl (ParserError ''file path is invalid or not found'')
      | Some Undecodable \<Rightarrow> Inl (Uncaught ''UnicodeDecodeError'')
      | Some (Text data) \<Rightarrow>
          if data = [] then Inl (ParserError ''file is empty'')
          else Inr (slice_limit (arg_limit a) (re_findall_ips ext data)))"

text \<open>Lines 191 to 207. The test \<open>if single_ip\<close> is false for an empty \<open>--ip\<close> too.\<close>

definition input_ip_list :: "externals \<Rightarrow> args \<Rightarrow> failure + string list" where
  "input_ip_list ext a =
     (case arg_ip a of
        Some single_ip \<Rightarrow>
          if single_ip \<noteq> [] then Inr [single_ip] else file_ip_list ext a
      | None \<Rightarrow> file_ip_list ext a)"

text \<open>
  \<open>sorted(items, key=key, reverse=True)\<close>: a stable sort that keeps the order of items
  with equal keys. As in CPython, the list is reversed, sorted stably in ascending
  order and reversed again.
\<close>

definition sorted_reverse :: "('a \<Rightarrow> 'k::linorder) \<Rightarrow> 'a list \<Rightarrow> 'a list" where
  "sorted_reverse key xs = rev (sort_key key (rev xs))"

text \<open>
  Lines 217 and 218. The key is the length of the value list for the three attribute
  modes, and the element at index 2 of the value list otherwise; Python evaluates the
  key of every item, and index 2 of a shorter list raises \<open>IndexError\<close>. Strings
  compare by code point, which is the order of their bytes.
\<close>

definition attribute_mode :: "string \<Rightarrow> bool" where
  "attribute_mode group_by = (group_by \<in> set [''country'', ''state/region'', ''city''])"

definition sort_groups :: "string \<Rightarrow> result_dict \<Rightarrow> failure + result_dict" where
  "sort_groups group_by result_dict =
     (if attribute_mode group_by then
        Inr (dict_of (sorted_reverse (\<lambda>x. length (snd x)) result_dict))
      else if list_ex (\<lambda>x. length (snd x) \<le> 2) result_dict then
        Inl (Uncaught ''IndexError'')
      else Inr (dict_of (sorted_reverse (\<lambda>x. snd x ! 2) result_dict)))"

text \<open>Lines 220 to 223: what the two \<open>print\<close> calls write for each group.\<close>

definition print_groups :: "result_dict \<Rightarrow> string list" where
  "print_groups sorted_dict =
     concat (map (\<lambda>(key, vals). (CHR 0x0A # '' '' @ key) # map (\<lambda>v. ''     '' @ v) vals)
       sorted_dict)"

text \<open>Lines 216 to 225.\<close>

definition print_result :: "string \<Rightarrow> result_dict \<Rightarrow> failure + string list" where
  "print_result group_by result_dict =
     (if result_dict \<noteq> [] then
        (case sort_groups group_by result_dict of
           Inl e \<Rightarrow> Inl e
         | Inr sorted_dict \<Rightarrow> Inr (print_groups sorted_dict))
      else Inr [''No records found''])"

text \<open>Lines 227 to 230.\<close>

definition print_not_found :: "bool \<Rightarrow> string list \<Rightarrow> string list" where
  "print_not_found show_not_found unknown_ips =
     (if show_not_found \<and> length unknown_ips > 0 then
        (CHR 0x0A # ''IP addresses not found:'') # map (\<lambda>ip. ''     '' @ ip) unknown_ips
      else [])"

text \<open>
  Lines 209 to 214: the database is opened once, and any exception of the opening or
  of a lookup is printed and returned as status 2.
\<close>

definition lookup_all ::
  "externals \<Rightarrow> args \<Rightarrow> string list \<Rightarrow> (string \<Rightarrow> bool) option \<Rightarrow> string list \<Rightarrow>
   exn + (result_dict \<times> string list)" where
  "lookup_all ext a ip_list search_pattern filtered_ips =
     (case Reader ext (arg_db a) of
        Inl e \<Rightarrow> Inl e
      | Inr reader \<Rightarrow>
          get_records (format_9f ext) reader ip_list search_pattern filtered_ips (arg_group a))"

text \<open>\<open>main\<close>: the exit status and the lines printed.\<close>

definition main :: "externals \<Rightarrow> args \<Rightarrow> failure + (int \<times> string list)" where
  "main ext a =
     (case compile_search ext a of
        Inl f \<Rightarrow> Inl f
      | Inr search_pattern \<Rightarrow>
          (let filtered_ips = (case arg_filter a of Some f \<Rightarrow> f | None \<Rightarrow> []) in
           case input_ip_list ext a of
             Inl f \<Rightarrow> Inl f
           | Inr ip_list \<Rightarrow>
               (case lookup_all ext a ip_list search_pattern filtered_ips of
                  Inl e \<Rightarrow> Inr (2, [''ERROR:  '' @ exn_str e])
                | Inr (result_dict, unknown_ips) \<Rightarrow>
                    (case print_result (arg_group a) result_dict of
                       Inl f \<Rightarrow> Inl f
                     | Inr out \<Rightarrow>
                         Inr (0, out @ print_not_found (arg_show_not_found a) unknown_ips)))))"

section \<open>The two buckets\<close>

text \<open>
  The addresses aggregated into some group: the members of the value lists when the
  groups are attributes, the keys when the groups are addresses.
\<close>

definition aggregated :: "string \<Rightarrow> result_dict \<Rightarrow> string set" where
  "aggregated group_by d =
     (if attribute_mode group_by then \<Union> (set (map (set \<circ> snd) d)) else set (map fst d))"

text \<open>
  An address contributes to a group when it is not excluded and its lookup finds a record
  that the search filter keeps; it is unresolved when it is not excluded and its lookup
  finds nothing.
\<close>

definition contributes ::
  "reader \<Rightarrow> (string \<Rightarrow> bool) option \<Rightarrow> string list \<Rightarrow> string \<Rightarrow> bool" where
  "contributes reader search_pattern filtered_ips ip =
     (ip \<notin> set filtered_ips \<and>
      (case reader ip of Inr rec \<Rightarrow> add_record search_pattern rec ip | Inl e \<Rightarrow> False))"

definition unresolved :: "reader \<Rightarrow> string list \<Rightarrow> string \<Rightarrow> bool" where
  "unresolved reader filtered_ips ip =
     (ip \<notin> set filtered_ips \<and> read_record reader ip = Inr None)"

text \<open>
  In address mode every value list is a positive number of copies of the detail block of
  its key.
\<close>

definition blocks_of :: "(real \<Rightarrow> string) \<Rightarrow> reader \<Rightarrow> result_dict \<Rightarrow> bool" where
  "blocks_of fmt reader d =
     (\<forall>(k, vs) \<in> set d. \<exists>r n. reader k = Inr r \<and> vs = concat (replicate (Suc n) (detail_block fmt r)))"

text \<open>\<open>d.get(k, [])\<close>.\<close>

definition dict_get :: "result_dict \<Rightarrow> string \<Rightarrow> string list" where
  "dict_get d k = (case map_of d k of None \<Rightarrow> [] | Some vs \<Rightarrow> vs)"

section \<open>An example database\<close>

text \<open>
  A formatter for the examples: nine decimals of a real number, rounded to the nearest
  with ties to even, the sign first.
\<close>

definition round_half_even :: "real \<Rightarrow> int" where
  "round_half_even y =
     (let f = \<lfloor>y\<rfloor>
      in if y - of_int f < 1 / 2 then f
         else if y - of_int f > 1 / 2 then f + 1
         else if even f then f else f + 1)"

definition example_format_9f :: "real \<Rightarrow> string" where
  "example_format_9f x =
     (let n = nat (round_half_even (\<bar>x\<bar> * 1000000000));
          frac = str_nat (n mod 1000000000)
      in (if x < 0 then ''-'' else []) @ str_nat (n div 1000000000) @ ''.'' @
         replicate (9 - length frac) CHR ''0'' @ frac)"

definition us_rec :: geo where
  "us_rec = \<lparr>rec_city_name = None, rec_subdivision_name = None,
     rec_country_name = Some ''United States'', rec_country_iso_code = Some ''US'',
     rec_latitude = Some 37.751, rec_longitude = Some (- 97.822),
     rec_accuracy_radius = Some 1000\<rparr>"

definition zambia_rec :: geo where
  "zambia_rec = \<lparr>rec_city_name = Some ''Lusaka'',
     rec_subdivision_name = Some ''Lusaka Province'',
     rec_country_name = Some ''Zambia'', rec_country_iso_code = Some ''ZM'',
     rec_latitude = Some (- 15.4167), rec_longitude = Some 28.2833,
     rec_accuracy_radius = Some 5\<rparr>"

definition austria_rec :: geo where
  "austria_rec = \<lparr>rec_city_name = Some ''Vienna'', rec_subdivision_name = Some ''Vienna'',
     rec_country_name = Some ''Austria'', rec_country_iso_code = Some ''AT'',
     rec_latitude = Some 48.2049, rec_longitude = Some 16.3662,
     rec_accuracy_radius = Some 9\<rparr>"

definition greenwich_rec :: geo where
  "greenwich_rec = \<lparr>rec_city_name = Some ''London'', rec_subdivision_name = Some ''England'',
     rec_country_name = Some ''United Kingdom'', rec_country_iso_code = Some ''GB'',
     rec_latitude = Some 51.4779, rec_longitude = Some 0,
     rec_accuracy_radius = Some 20\<rparr>"

definition bare_rec :: geo where
  "bare_rec = \<lparr>rec_city_name = None, rec_subdivision_name = None,
     rec_country_name = None, rec_country_iso_code = None,
     rec_latitude = None, rec_longitude = None,
     rec_accuracy_radius = None\<rparr>"

definition example_reader :: reader where
  "example_reader ip =
     (if ip = ''8.8.8.8'' then Inr us_rec
      else if ip = ''41.72.0.1'' then Inr zambia_rec
      else if ip = ''193.0.0.1'' then Inr austria_rec
      else if ip = ''51.0.0.1'' then Inr greenwich_rec
      else if ip = ''10.0.0.1'' then Inr bare_rec
      else if ip = ''999.1.1.1'' then Inl (ValueError ''not an IPv4 or IPv6 address'')
      else if ip = ''8.8.4.4'' then Inl (OtherError ''the search tree is corrupt'')
      else Inl (AddressNotFoundError ''not in the database''))"

text \<open>
  A regular-expression engine for the examples, for patterns without metacharacters: the
  pattern is searched as a substring, letters folded to lower case under \<open>IGNORECASE\<close>.
  On a text of addresses separated by blanks, the matches of the address pattern are the
  words of the text.
\<close>

definition lower :: "char \<Rightarrow> char" where
  "lower c =
     (case map_of (zip ''ABCDEFGHIJKLMNOPQRSTUVWXYZ'' ''abcdefghijklmnopqrstuvwxyz'') c of
        Some l \<Rightarrow> l
      | None \<Rightarrow> c)"

fun contains :: "string \<Rightarrow> string \<Rightarrow> bool" where
  "contains p [] = (p = [])"
| "contains p (c # s) = (take (length p) (c # s) = p \<or> contains p s)"

definition example_re_compile :: "string \<Rightarrow> re_flag \<Rightarrow> (string \<Rightarrow> bool) option" where
  "example_re_compile p flag =
     Some (\<lambda>s. case flag of
                  IGNORECASE \<Rightarrow> contains (map lower p) (map lower s)
                | NOFLAG \<Rightarrow> contains p s)"

fun split_blank :: "string \<Rightarrow> string \<Rightarrow> string list" where
  "split_blank w [] = (if w = [] then [] else [w])"
| "split_blank w (c # s) =
     (if c = CHR '' '' then (if w = [] then split_blank [] s else w # split_blank [] s)
      else split_blank (w @ [c]) s)"

definition words_of :: "string \<Rightarrow> string list" where
  "words_of s = split_blank [] s"

definition example_externals :: externals where
  "example_externals =
     \<lparr>re_compile = example_re_compile, re_findall_ips = words_of,
      format_9f = example_format_9f, Reader = (\<lambda>path. Inr example_reader)\<rparr>"

definition example_args :: args where
  "example_args =
     \<lparr>arg_ip = None,
      arg_file = Some (Text ''8.8.8.8 41.72.0.1 193.0.0.1 51.0.0.1 10.0.0.1 999.1.1.1 127.0.0.1 8.8.4.4 1.1.1.1 9.9.9.9''),
      arg_db = ''/var/lib/GeoIP/GeoLite2-City.mmdb'', arg_group = ''ip_address'',
      arg_search = Some ''states'', arg_filter = None, arg_limit = 3,
      arg_show_not_found = False\<rparr>"

section \<open>Properties of the loop\<close>

subsection \<open>The lookup\<close>

lemma read_record_None_iff:
  "read_record reader ip = Inr None \<longleftrightarrow>
     (\<exists>m. reader ip = Inl (AddressNotFoundError m) \<or> reader ip = Inl (ValueError m))"
  by (auto simp: read_record_def split: sum.splits exn.splits)

lemma read_record_Some_iff:
  "read_record reader ip = Inr (Some r) \<longleftrightarrow> reader ip = Inr r"
  by (auto simp: read_record_def split: sum.splits exn.splits)


subsection \<open>One round of the loop\<close>

lemma loop_excluded:
  "ip \<in> set fl \<Longrightarrow>
   get_records_loop fmt reader (ip # rest) sp fl g rd unk =
   get_records_loop fmt reader rest sp fl g rd unk"
  by simp

lemma loop_not_found:
  "ip \<notin> set fl \<Longrightarrow> read_record reader ip = Inr None \<Longrightarrow>
   get_records_loop fmt reader (ip # rest) sp fl g rd unk =
   get_records_loop fmt reader rest sp fl g rd (unk @ [ip])"
  by simp

lemma loop_found:
  "ip \<notin> set fl \<Longrightarrow> reader ip = Inr r \<Longrightarrow>
   get_records_loop fmt reader (ip # rest) sp fl g rd unk =
   get_records_loop fmt reader rest sp fl g
     (if add_record sp r ip then add_to_groups fmt g r ip rd else rd) unk"
  by (simp add: read_record_def)

lemma loop_raises:
  "ip \<notin> set fl \<Longrightarrow> read_record reader ip = Inl e \<Longrightarrow>
   get_records_loop fmt reader (ip # rest) sp fl g rd unk = Inl e"
  by simp

text \<open>The four ways a round can go.\<close>

lemma round_cases:
  obtains (excluded) "ip \<in> set fl"
  | (raises) e where "ip \<notin> set fl" "read_record reader ip = Inl e"
  | (not_found) "ip \<notin> set fl" "read_record reader ip = Inr None"
  | (found) r where "ip \<notin> set fl" "reader ip = Inr r"
proof (cases "ip \<in> set fl")
  case True
  then show ?thesis by (rule excluded)
next
  case False
  show ?thesis
  proof (cases "read_record reader ip")
    case (Inl e)
    with False show ?thesis by (rule raises)
  next
    case (Inr ro)
    show ?thesis
    proof (cases ro)
      case None
      with False Inr show ?thesis by (auto intro: not_found)
    next
      case (Some r)
      with Inr have "reader ip = Inr r" by (simp add: read_record_Some_iff)
      with False show ?thesis by (rule found)
    qed
  qed
qed

subsection \<open>The unresolved list\<close>

lemma unknown_loop:
  "get_records_loop fmt reader ip_list sp fl g rd unk = Inr (rd', unk') \<Longrightarrow>
   unk' = unk @ filter (unresolved reader fl) ip_list"
proof (induction ip_list arbitrary: rd unk)
  case Nil
  then show ?case by simp
next
  case (Cons ip ip_list)
  show ?case
  proof (cases rule: round_cases [where ip = ip and fl = fl and reader = reader])
    case excluded
    have "get_records_loop fmt reader ip_list sp fl g rd unk = Inr (rd', unk')"
      using Cons.prems by (simp only: loop_excluded [OF excluded])
    from Cons.IH [OF this] excluded show ?thesis by (simp add: unresolved_def)
  next
    case (raises e)
    with Cons.prems show ?thesis by simp
  next
    case not_found
    have "get_records_loop fmt reader ip_list sp fl g rd (unk @ [ip]) = Inr (rd', unk')"
      using Cons.prems by (simp only: loop_not_found [OF not_found])
    from Cons.IH [OF this] not_found show ?thesis by (simp add: unresolved_def)
  next
    case (found r)
    have "get_records_loop fmt reader ip_list sp fl g
            (if add_record sp r ip then add_to_groups fmt g r ip rd else rd) unk = Inr (rd', unk')"
      using Cons.prems by (simp only: loop_found [where reader = reader and ip = ip, OF found])
    from Cons.IH [OF this] found show ?thesis
      by (simp add: unresolved_def read_record_def)
  qed
qed

subsection \<open>The aggregated addresses\<close>

lemma keys_dict_extend: "set (map fst (dict_extend d k vs)) = insert k (set (map fst d))"
  by (induction d k vs rule: dict_extend.induct) auto

lemma values_dict_extend:
  "\<Union> (set (map (set \<circ> snd) (dict_extend d k vs))) = set vs \<union> \<Union> (set (map (set \<circ> snd) d))"
  by (induction d k vs rule: dict_extend.induct) auto

lemma add_to_groups_attribute:
  "attribute_mode g \<Longrightarrow> \<exists>k. add_to_groups fmt g r ip d = dict_extend d k [ip]"
  by (auto simp: attribute_mode_def add_to_groups_def)

lemma add_to_groups_address:
  "\<not> attribute_mode g \<Longrightarrow>
   add_to_groups fmt g r ip d = dict_extend d ip (detail_block fmt r)"
  by (simp add: attribute_mode_def add_to_groups_def)

lemma aggregated_add_to_groups:
  "aggregated g (add_to_groups fmt g r ip d) = insert ip (aggregated g d)"
proof (cases "attribute_mode g")
  case True
  from add_to_groups_attribute [OF True] obtain k
    where "add_to_groups fmt g r ip d = dict_extend d k [ip]" ..
  with True show ?thesis
    by (simp add: aggregated_def values_dict_extend del: set_map)
next
  case False
  then show ?thesis
    by (simp add: aggregated_def add_to_groups_address keys_dict_extend del: set_map)
qed

lemma Collect_Cons:
  "{x \<in> set (a # xs). P x} = (if P a then insert a {x \<in> set xs. P x} else {x \<in> set xs. P x})"
  by auto

lemma contributes_excluded: "ip \<in> set fl \<Longrightarrow> \<not> contributes reader sp fl ip"
  by (simp add: contributes_def)

lemma contributes_not_found: "read_record reader ip = Inr None \<Longrightarrow> \<not> contributes reader sp fl ip"
  by (auto simp: contributes_def read_record_None_iff)

lemma contributes_found:
  "ip \<notin> set fl \<Longrightarrow> reader ip = Inr r \<Longrightarrow> contributes reader sp fl ip = add_record sp r ip"
  by (simp add: contributes_def)

lemma aggregated_loop:
  "get_records_loop fmt reader ip_list sp fl g rd unk = Inr (rd', unk') \<Longrightarrow>
   aggregated g rd' = aggregated g rd \<union> {ip \<in> set ip_list. contributes reader sp fl ip}"
proof (induction ip_list arbitrary: rd unk)
  case Nil
  then show ?case by simp
next
  case (Cons ip ip_list)
  let ?C = "{x \<in> set ip_list. contributes reader sp fl x}"
  show ?case
  proof (cases rule: round_cases [where ip = ip and fl = fl and reader = reader])
    case excluded
    have "get_records_loop fmt reader ip_list sp fl g rd unk = Inr (rd', unk')"
      using Cons.prems by (simp only: loop_excluded [OF excluded])
    from Cons.IH [OF this] have "aggregated g rd' = aggregated g rd \<union> ?C" .
    then show ?thesis
      by (simp only: Collect_Cons contributes_excluded [OF excluded] if_False)
  next
    case (raises e)
    with Cons.prems show ?thesis by simp
  next
    case not_found
    have "get_records_loop fmt reader ip_list sp fl g rd (unk @ [ip]) = Inr (rd', unk')"
      using Cons.prems by (simp only: loop_not_found [OF not_found])
    from Cons.IH [OF this] have "aggregated g rd' = aggregated g rd \<union> ?C" .
    then show ?thesis
      by (simp only: Collect_Cons contributes_not_found [OF not_found(2)] if_False)
  next
    case (found r)
    have step: "get_records_loop fmt reader ip_list sp fl g
            (if add_record sp r ip then add_to_groups fmt g r ip rd else rd) unk = Inr (rd', unk')"
      using Cons.prems by (simp only: loop_found [where reader = reader and ip = ip, OF found])
    have c: "contributes reader sp fl ip = add_record sp r ip"
      using found by (rule contributes_found)
    show ?thesis
    proof (cases "add_record sp r ip")
      case True
      with step have "get_records_loop fmt reader ip_list sp fl g
            (add_to_groups fmt g r ip rd) unk = Inr (rd', unk')" by simp
      from Cons.IH [OF this]
      have "aggregated g rd' = insert ip (aggregated g rd) \<union> ?C"
        by (simp only: aggregated_add_to_groups)
      with True c show ?thesis by (simp only: Collect_Cons) simp
    next
      case False
      with step have "get_records_loop fmt reader ip_list sp fl g rd unk = Inr (rd', unk')"
        by simp
      from Cons.IH [OF this] have "aggregated g rd' = aggregated g rd \<union> ?C" .
      with False c show ?thesis by (simp only: Collect_Cons) simp
    qed
  qed
qed

lemma not_both: "\<not> (contributes reader sp fl ip \<and> unresolved reader fl ip)"
  by (auto simp: contributes_def unresolved_def read_record_def split: sum.splits exn.splits)

subsection \<open>Runs that raise\<close>

lemma aggregated_Nil: "aggregated g [] = {}"
  by (simp add: aggregated_def)


subsection \<open>The section of unresolved addresses\<close>

lemma print_not_found_lines:
  "line \<in> set (print_not_found b unknown) \<Longrightarrow>
   line = CHR 0x0A # ''IP addresses not found:'' \<or> (\<exists>ip \<in> set unknown. line = ''     '' @ ip)"
  by (auto simp: print_not_found_def split: if_splits)

subsection \<open>Invariants of the result mapping\<close>

lemma loop_invariant:
  assumes "get_records_loop fmt reader ip_list sp fl g rd unk = Inr (rd', unk')"
    and "P rd"
    and "\<And>ip r d. reader ip = Inr r \<Longrightarrow> P d \<Longrightarrow> P (add_to_groups fmt g r ip d)"
  shows "P rd'"
  using assms(1,2)
proof (induction ip_list arbitrary: rd unk)
  case Nil
  then show ?case by simp
next
  case (Cons ip ip_list)
  show ?case
  proof (cases rule: round_cases [where ip = ip and fl = fl and reader = reader])
    case excluded
    have "get_records_loop fmt reader ip_list sp fl g rd unk = Inr (rd', unk')"
      using Cons.prems(1) by (simp only: loop_excluded [OF excluded])
    from Cons.IH [OF this Cons.prems(2)] show ?thesis .
  next
    case (raises e)
    with Cons.prems(1) show ?thesis by simp
  next
    case not_found
    have "get_records_loop fmt reader ip_list sp fl g rd (unk @ [ip]) = Inr (rd', unk')"
      using Cons.prems(1) by (simp only: loop_not_found [OF not_found])
    from Cons.IH [OF this Cons.prems(2)] show ?thesis .
  next
    case (found r)
    have step: "get_records_loop fmt reader ip_list sp fl g
            (if add_record sp r ip then add_to_groups fmt g r ip rd else rd) unk = Inr (rd', unk')"
      using Cons.prems(1)
      by (simp only: loop_found [where reader = reader and ip = ip, OF found])
    have "P (if add_record sp r ip then add_to_groups fmt g r ip rd else rd)"
      using Cons.prems(2) assms(3) [OF found(2)] by simp
    from Cons.IH [OF step this] show ?thesis .
  qed
qed

lemma distinct_dict_extend:
  "distinct (map fst d) \<Longrightarrow> distinct (map fst (dict_extend d k vs))"
proof (induction d k vs rule: dict_extend.induct)
  case (1 k vs)
  then show ?case by simp
next
  case (2 k' ws d k vs)
  then show ?case by (auto simp: keys_dict_extend simp del: set_map)
qed

lemma distinct_add_to_groups:
  "distinct (map fst d) \<Longrightarrow> distinct (map fst (add_to_groups fmt g r ip d))"
  by (simp add: add_to_groups_def distinct_dict_extend)

lemma distinct_keys:
  assumes "get_records fmt reader ip_list sp fl g = Inr (result, unknown)"
  shows "distinct (map fst result)"
proof -
  from assms have "get_records_loop fmt reader ip_list sp fl g [] [] = Inr (result, unknown)"
    by (simp only: get_records_def)
  then show ?thesis
    by (rule loop_invariant [where P = "\<lambda>d. distinct (map fst d)"])
       (simp_all add: distinct_add_to_groups)
qed

lemma in_dict_extend:
  "(k', ws') \<in> set (dict_extend d k vs) \<Longrightarrow>
   (k', ws') \<in> set d \<or> k' = k \<and> (ws' = vs \<or> (\<exists>ws. (k, ws) \<in> set d \<and> ws' = ws @ vs))"
  by (induction d k vs rule: dict_extend.induct) (auto split: if_splits)

lemma concat_replicate_snoc: "concat (replicate m b) @ b = concat (replicate (Suc m) b)"
  by (induction m) auto

lemma blocks_of_add:
  assumes "\<not> attribute_mode g" and "reader ip = Inr r" and "blocks_of fmt reader d"
  shows "blocks_of fmt reader (add_to_groups fmt g r ip d)"
  unfolding blocks_of_def
proof (intro ballI, clarify)
  fix k vs
  assume "(k, vs) \<in> set (add_to_groups fmt g r ip d)"
  with assms(1) have "(k, vs) \<in> set (dict_extend d ip (detail_block fmt r))"
    by (simp add: add_to_groups_address)
  from in_dict_extend [OF this]
  consider "(k, vs) \<in> set d" | "k = ip" "vs = detail_block fmt r"
    | ws where "k = ip" "(ip, ws) \<in> set d" "vs = ws @ detail_block fmt r"
    by blast
  then show "\<exists>r n. reader k = Inr r \<and> vs = concat (replicate (Suc n) (detail_block fmt r))"
  proof cases
    case 1
    with assms(3) show ?thesis unfolding blocks_of_def by blast
  next
    case 2
    with assms(2) have "reader k = Inr r \<and> vs = concat (replicate (Suc 0) (detail_block fmt r))"
      by simp
    then show ?thesis by blast
  next
    case 3
    from 3(2) assms(3) obtain r' n where
      r': "reader ip = Inr r'" "ws = concat (replicate (Suc n) (detail_block fmt r'))"
      unfolding blocks_of_def by blast
    from r'(1) assms(2) have "r' = r" by simp
    with r'(2) 3(3)
    have "vs = concat (replicate (Suc (Suc n)) (detail_block fmt r))"
      by (simp only: concat_replicate_snoc)
    with 3(1) assms(2) show ?thesis by blast
  qed
qed

lemma blocks_of_result:
  assumes "\<not> attribute_mode g"
    and "get_records fmt reader ip_list sp fl g = Inr (result, unknown)"
  shows "blocks_of fmt reader result"
proof -
  from assms(2) have "get_records_loop fmt reader ip_list sp fl g [] [] = Inr (result, unknown)"
    by (simp only: get_records_def)
  then show ?thesis
  proof (rule loop_invariant [where P = "blocks_of fmt reader"])
    show "blocks_of fmt reader []" by (simp add: blocks_of_def)
  next
    fix ip r d
    assume "reader ip = Inr r" "blocks_of fmt reader d"
    with assms(1) show "blocks_of fmt reader (add_to_groups fmt g r ip d)"
      by (rule blocks_of_add)
  qed
qed

lemma block_lines:
  "concat (replicate (Suc n) (detail_block fmt r)) ! 2 = ''Country:    '' @ country_full r"
  "5 \<le> length (concat (replicate (Suc n) (detail_block fmt r)))"
  "length (concat (replicate (Suc n) (detail_block fmt r))) = 5 * Suc n"
  by (simp_all add: detail_block_def length_concat sum_list_replicate)

subsection \<open>The length of a value list in address mode\<close>

lemma dict_get_dict_extend:
  "dict_get (dict_extend d k vs) k' = (if k' = k then dict_get d k @ vs else dict_get d k')"
  by (induction d k vs rule: dict_extend.induct) (auto simp: dict_get_def)

lemma dict_get_member:
  "distinct (map fst d) \<Longrightarrow> (k, vs) \<in> set d \<Longrightarrow> dict_get d k = vs"
  by (simp add: dict_get_def)

lemma length_loop:
  assumes "\<not> attribute_mode g"
  shows "get_records_loop fmt reader ip_list sp fl g rd unk = Inr (rd', unk') \<Longrightarrow>
    length (dict_get rd' k) =
      length (dict_get rd k) +
      5 * length (filter (\<lambda>ip. ip = k \<and> contributes reader sp fl ip) ip_list)"
proof (induction ip_list arbitrary: rd unk)
  case Nil
  then show ?case by simp
next
  case (Cons ip ip_list)
  let ?n = "length (filter (\<lambda>ip. ip = k \<and> contributes reader sp fl ip) ip_list)"
  show ?case
  proof (cases rule: round_cases [where ip = ip and fl = fl and reader = reader])
    case excluded
    have "get_records_loop fmt reader ip_list sp fl g rd unk = Inr (rd', unk')"
      using Cons.prems by (simp only: loop_excluded [OF excluded])
    from Cons.IH [OF this] contributes_excluded [OF excluded, of reader sp]
    show ?thesis by simp
  next
    case (raises e)
    with Cons.prems show ?thesis by simp
  next
    case not_found
    have "get_records_loop fmt reader ip_list sp fl g rd (unk @ [ip]) = Inr (rd', unk')"
      using Cons.prems by (simp only: loop_not_found [OF not_found])
    from Cons.IH [OF this] contributes_not_found [OF not_found(2), of sp fl]
    show ?thesis by simp
  next
    case (found r)
    have step: "get_records_loop fmt reader ip_list sp fl g
            (if add_record sp r ip then add_to_groups fmt g r ip rd else rd) unk = Inr (rd', unk')"
      using Cons.prems by (simp only: loop_found [where reader = reader and ip = ip, OF found])
    have c: "contributes reader sp fl ip = add_record sp r ip"
      using found by (rule contributes_found)
    show ?thesis
    proof (cases "add_record sp r ip")
      case True
      with step have "get_records_loop fmt reader ip_list sp fl g
            (add_to_groups fmt g r ip rd) unk = Inr (rd', unk')" by simp
      from Cons.IH [OF this]
      have "length (dict_get rd' k) =
        length (dict_get (dict_extend rd ip (detail_block fmt r)) k) + 5 * ?n"
        by (simp only: add_to_groups_address [OF assms])
      with True c show ?thesis
        by (simp add: dict_get_dict_extend detail_block_def)
    next
      case False
      with step have "get_records_loop fmt reader ip_list sp fl g rd unk = Inr (rd', unk')"
        by simp
      from Cons.IH [OF this] False c show ?thesis by simp
    qed
  qed
qed

subsection \<open>Sorting\<close>

lemma mset_sorted_reverse: "mset (sorted_reverse key xs) = mset xs"
  by (simp add: sorted_reverse_def)

lemma sorted_reverse_descending:
  "sorted_wrt (\<lambda>a b. key b \<le> key a) (sorted_reverse key xs)"
proof -
  have "sorted (map key (sort_key key (rev xs)))" by (rule sorted_sort_key)
  then have "sorted_wrt (\<lambda>a b. key a \<le> key b) (sort_key key (rev xs))"
    by (simp add: sorted_map)
  then show ?thesis
    by (simp add: sorted_reverse_def sorted_wrt_rev)
qed

lemma sorted_reverse_stable:
  "filter (\<lambda>x. key x = k) (sorted_reverse key xs) = filter (\<lambda>x. key x = k) xs"
  by (simp add: sorted_reverse_def rev_filter [symmetric] sort_key_stable)

lemma dict_set_fresh: "k \<notin> set (map fst d) \<Longrightarrow> dict_set d k v = d @ [(k, v)]"
  by (induction d k v rule: dict_set.induct) auto

lemma foldl_dict_set:
  "distinct (map fst (acc @ xs)) \<Longrightarrow>
   foldl (\<lambda>d (k, v). dict_set d k v) acc xs = acc @ xs"
proof (induction xs arbitrary: acc)
  case Nil
  then show ?case by simp
next
  case (Cons x xs)
  obtain k v where x: "x = (k, v)" by (cases x)
  from Cons.prems x have "k \<notin> set (map fst acc)" by auto
  then have "dict_set acc k v = acc @ [(k, v)]" by (rule dict_set_fresh)
  moreover from Cons.prems x have "distinct (map fst ((acc @ [(k, v)]) @ xs))" by simp
  from Cons.IH [OF this]
  have "foldl (\<lambda>d (k, v). dict_set d k v) (acc @ [(k, v)]) xs = (acc @ [(k, v)]) @ xs" .
  ultimately show ?case using x by simp
qed

lemma dict_of_distinct: "distinct (map fst xs) \<Longrightarrow> dict_of xs = xs"
  using foldl_dict_set [of "[]" xs] by (simp add: dict_of_def)

lemma distinct_keys_sorted_reverse:
  assumes "distinct (map fst xs)"
  shows "distinct (map fst (sorted_reverse key xs))"
proof -
  have "mset (map fst (sorted_reverse key xs)) = mset (map fst xs)"
    by (simp add: mset_sorted_reverse)
  from mset_eq_imp_distinct_iff [OF this] assms show ?thesis by simp
qed

lemma sort_groups_attribute:
  "attribute_mode g \<Longrightarrow> distinct (map fst d) \<Longrightarrow>
   sort_groups g d = Inr (sorted_reverse (\<lambda>x. length (snd x)) d)"
  by (simp add: sort_groups_def dict_of_distinct distinct_keys_sorted_reverse)

lemma sort_groups_address:
  "\<not> attribute_mode g \<Longrightarrow> distinct (map fst d) \<Longrightarrow> \<forall>x \<in> set d. 3 \<le> length (snd x) \<Longrightarrow>
   sort_groups g d = Inr (sorted_reverse (\<lambda>x. snd x ! 2) d)"
  by (auto simp: sort_groups_def dict_of_distinct distinct_keys_sorted_reverse list_ex_iff)

subsection \<open>What \<open>main\<close> can raise\<close>

lemma compile_search_Inl: "compile_search ext a = Inl f \<Longrightarrow> f = Uncaught ''re.error''"
  by (auto simp: compile_search_def split: option.splits)

lemma input_ip_list_Inl:
  "input_ip_list ext a = Inl f \<Longrightarrow>
   f = Uncaught ''AttributeError'' \<or> f = Uncaught ''UnicodeDecodeError'' \<or>
   f = ParserError ''file path is invalid or not found'' \<or> f = ParserError ''file is empty''"
  by (auto simp: input_ip_list_def file_ip_list_def
      split: option.splits file_state.splits if_splits)

lemma sort_groups_result:
  assumes "get_records fmt reader ip_list sp fl g = Inr (result, unknown)"
  shows "\<exists>s. sort_groups g result = Inr s"
proof (cases "attribute_mode g")
  case True
  then show ?thesis by (simp add: sort_groups_def)
next
  case False
  from assms have d: "distinct (map fst result)" by (rule distinct_keys)
  from blocks_of_result [OF False assms]
  have bl: "\<forall>(k, vs) \<in> set result. \<exists>r n. reader k = Inr r \<and>
      vs = concat (replicate (Suc n) (detail_block fmt r))"
    by (simp only: blocks_of_def)
  have "\<forall>x \<in> set result. 3 \<le> length (snd x)"
  proof
    fix x
    assume x: "x \<in> set result"
    obtain k vs where kv: "x = (k, vs)" by (cases x)
    with x bl obtain r n where "vs = concat (replicate (Suc n) (detail_block fmt r))"
      by blast
    with block_lines(2) [of n fmt r] kv show "3 \<le> length (snd x)" by simp
  qed
  from sort_groups_address [OF False d this] show ?thesis by blast
qed

lemma print_result_result:
  assumes "get_records fmt reader ip_list sp fl g = Inr (result, unknown)"
  shows "\<exists>out. print_result g result = Inr out"
proof -
  from sort_groups_result [OF assms] obtain s where "sort_groups g result = Inr s" ..
  then show ?thesis by (simp add: print_result_def)
qed

lemma main_Inl:
  assumes "main ext a = Inl f"
  shows "f = Uncaught ''re.error'' \<or> f = Uncaught ''AttributeError'' \<or>
         f = Uncaught ''UnicodeDecodeError'' \<or>
         f = ParserError ''file path is invalid or not found'' \<or>
         f = ParserError ''file is empty''"
proof (cases "compile_search ext a")
  case (Inl f')
  with assms have "f' = f" by (simp add: main_def)
  with compile_search_Inl [OF Inl] show ?thesis by simp
next
  case (Inr search_pattern)
  note c = Inr
  show ?thesis
  proof (cases "input_ip_list ext a")
    case (Inl f')
    with assms c have "f' = f" by (simp add: main_def)
    with input_ip_list_Inl [OF Inl] show ?thesis by simp
  next
    case (Inr ip_list)
    note i = Inr
    let ?fl = "case arg_filter a of Some f \<Rightarrow> f | None \<Rightarrow> []"
    show ?thesis
    proof (cases "lookup_all ext a ip_list search_pattern ?fl")
      case (Inl e)
      with assms c i show ?thesis by (simp add: main_def)
    next
      case (Inr res)
      obtain result unknown where res: "res = (result, unknown)" by (cases res)
      from Inr res obtain reader where
        "get_records (format_9f ext) reader ip_list search_pattern ?fl (arg_group a) =
           Inr (result, unknown)"
        by (auto simp: lookup_all_def split: sum.splits)
      from print_result_result [OF this] obtain out where
        "print_result (arg_group a) result = Inr out" ..
      with assms c i Inr res show ?thesis by (simp add: main_def)
    qed
  qed
qed

subsection \<open>Runs on the example database\<close>

text \<open>The definitions a concrete run unfolds, and some runs.\<close>

lemmas eval_defs = get_records_def read_record_def example_reader_def us_rec_def zambia_rec_def
  austria_rec_def greenwich_rec_def bare_rec_def add_record_def add_to_groups_def
  country_full_def country_name_def country_iso_def state_def city_def

lemma zambia_block:
  "detail_block fmt zambia_rec ! 1 = ''Radius(km): 5''"
  "detail_block fmt zambia_rec ! 2 = ''Country:    Zambia (ZM)''"
  "length (detail_block fmt zambia_rec) = 5"
  by (simp_all add: detail_block_def country_full_def country_name_def country_iso_def
      radius_def str_int_def str_nat.simps digit_char_def zambia_rec_def)

lemma austria_block:
  "detail_block fmt austria_rec ! 1 = ''Radius(km): 9''"
  "detail_block fmt austria_rec ! 2 = ''Country:    Austria (AT)''"
  "length (detail_block fmt austria_rec) = 5"
  by (simp_all add: detail_block_def country_full_def country_name_def country_iso_def
      radius_def str_int_def str_nat.simps digit_char_def austria_rec_def)

lemma address_run:
  "get_records example_format_9f example_reader [''193.0.0.1'', ''41.72.0.1''] None []
     ''ip_address'' =
   Inr ([(''193.0.0.1'', detail_block example_format_9f austria_rec),
         (''41.72.0.1'', detail_block example_format_9f zambia_rec)], [])"
  by (simp add: get_records_def read_record_def example_reader_def add_record_def
      add_to_groups_def)

lemma address_sort:
  "sort_groups ''ip_address''
     [(''193.0.0.1'', detail_block example_format_9f austria_rec),
      (''41.72.0.1'', detail_block example_format_9f zambia_rec)] =
   Inr [(''41.72.0.1'', detail_block example_format_9f zambia_rec),
        (''193.0.0.1'', detail_block example_format_9f austria_rec)]"
  by (simp add: sort_groups_def attribute_mode_def dict_of_def sorted_reverse_def
      zambia_block austria_block)

lemma country_run:
  "get_records example_format_9f example_reader [''41.72.0.1'', ''8.8.8.8'', ''8.8.8.8''] None []
     ''country'' =
   Inr ([(''Zambia (ZM)'', [''41.72.0.1'']),
         (''United States (US)'', [''8.8.8.8'', ''8.8.8.8''])], [])"
  by (simp add: eval_defs)

lemma country_sort:
  "sorted_reverse (\<lambda>x. length (snd x))
     [(''Zambia (ZM)'', [''41.72.0.1'']), (''United States (US)'', [''8.8.8.8'', ''8.8.8.8''])] =
   [(''United States (US)'', [''8.8.8.8'', ''8.8.8.8'']), (''Zambia (ZM)'', [''41.72.0.1''])]"
  by (simp add: sorted_reverse_def)

lemma repeated_run:
  "get_records example_format_9f example_reader [''193.0.0.1'', ''41.72.0.1'', ''193.0.0.1'']
     None [] ''ip_address'' =
   Inr ([(''193.0.0.1'',
          detail_block example_format_9f austria_rec @ detail_block example_format_9f austria_rec),
         (''41.72.0.1'', detail_block example_format_9f zambia_rec)], [])"
  by (simp add: get_records_def read_record_def example_reader_def add_record_def
      add_to_groups_def)

section \<open>C1: the two buckets\<close>

text \<open>
  C1 as stated fails: an address of the exclusion set, and an address whose found record
  the search filter rejects, end in neither bucket. Here \<open>8.8.8.8\<close> is first excluded
  and then rejected by a pattern that matches only \<open>Zambia (ZM)\<close>; both runs return an
  empty mapping and an empty unresolved list.
\<close>

theorem C1_counterexample:
  "get_records example_format_9f example_reader [''8.8.8.8''] None [''8.8.8.8''] ''ip_address''
     = Inr ([], []) \<and>
   ''8.8.8.8'' \<notin> aggregated ''ip_address'' [] \<and> ''8.8.8.8'' \<notin> set [] \<and>
   get_records example_format_9f example_reader [''8.8.8.8''] (Some (\<lambda>s. s = ''Zambia (ZM)''))
     [] ''ip_address'' = Inr ([], [])"
  by (simp add: eval_defs aggregated_def attribute_mode_def)

text \<open>
  C1, amended: when \<open>get_records\<close> returns, the aggregated addresses are exactly the
  input addresses that are not excluded and whose lookup finds a record the search filter
  keeps; the unresolved list holds exactly the input addresses that are not excluded and
  whose lookup finds nothing; no address is in both. Excluded addresses and rejected
  records are in neither.
\<close>

theorem C1_buckets:
  assumes "get_records fmt reader ip_list sp fl g = Inr (result, unknown)"
  shows "aggregated g result = {ip \<in> set ip_list. contributes reader sp fl ip} \<and>
         set unknown = {ip \<in> set ip_list. unresolved reader fl ip} \<and>
         aggregated g result \<inter> set unknown = {}"
proof -
  from assms have run: "get_records_loop fmt reader ip_list sp fl g [] [] = Inr (result, unknown)"
    by (simp only: get_records_def)
  from aggregated_loop [OF run]
  have a: "aggregated g result = {ip \<in> set ip_list. contributes reader sp fl ip}"
    by (simp add: aggregated_Nil)
  from unknown_loop [OF run]
  have u: "set unknown = {ip \<in> set ip_list. unresolved reader fl ip}"
    by simp
  have "aggregated g result \<inter> set unknown = {}"
    unfolding a u using not_both [of reader sp fl] by blast
  with a u show ?thesis by simp
qed

text \<open>
  C1, a run: four addresses, one excluded, one not in the database, two kept by the
  pattern, grouped by country.
\<close>

theorem C1_buckets_witness:
  "get_records example_format_9f example_reader
     [''8.8.8.8'', ''127.0.0.1'', ''41.72.0.1'', ''193.0.0.1'']
     (Some (\<lambda>s. s = ''Zambia (ZM)'' \<or> s = ''8.8.8.8'')) [''193.0.0.1''] ''country''
   = Inr ([(''United States (US)'', [''8.8.8.8'']), (''Zambia (ZM)'', [''41.72.0.1''])],
          [''127.0.0.1'']) \<and>
   (aggregated ''country''
      [(''United States (US)'', [''8.8.8.8'']), (''Zambia (ZM)'', [''41.72.0.1''])] =
      {ip \<in> set [''8.8.8.8'', ''127.0.0.1'', ''41.72.0.1'', ''193.0.0.1''].
         contributes example_reader (Some (\<lambda>s. s = ''Zambia (ZM)'' \<or> s = ''8.8.8.8''))
           [''193.0.0.1''] ip} \<and>
    set [''127.0.0.1''] =
      {ip \<in> set [''8.8.8.8'', ''127.0.0.1'', ''41.72.0.1'', ''193.0.0.1''].
         unresolved example_reader [''193.0.0.1''] ip} \<and>
    aggregated ''country''
      [(''United States (US)'', [''8.8.8.8'']), (''Zambia (ZM)'', [''41.72.0.1''])] \<inter>
      set [''127.0.0.1''] = {})"
proof -
  have run: "get_records example_format_9f example_reader
     [''8.8.8.8'', ''127.0.0.1'', ''41.72.0.1'', ''193.0.0.1'']
     (Some (\<lambda>s. s = ''Zambia (ZM)'' \<or> s = ''8.8.8.8'')) [''193.0.0.1''] ''country''
   = Inr ([(''United States (US)'', [''8.8.8.8'']), (''Zambia (ZM)'', [''41.72.0.1''])],
          [''127.0.0.1''])"
    by (simp add: eval_defs)
  show ?thesis by (rule conjI [OF run C1_buckets [OF run]])
qed

section \<open>C2: the order of the groups\<close>

text \<open>
  C2 as stated fails for the key of address mode: index 2 of the detail block is the
  country line, and the radius line is at index 1. The addresses \<open>193.0.0.1\<close> (Austria,
  radius 9) and \<open>41.72.0.1\<close> (Zambia, radius 5) are rendered with the smaller radius
  first, because \<open>Zambia\<close> is the greater country string.
\<close>

theorem C2_counterexample:
  "get_records example_format_9f example_reader [''193.0.0.1'', ''41.72.0.1''] None []
     ''ip_address'' =
     Inr ([(''193.0.0.1'', detail_block example_format_9f austria_rec),
           (''41.72.0.1'', detail_block example_format_9f zambia_rec)], []) \<and>
   sort_groups ''ip_address''
     [(''193.0.0.1'', detail_block example_format_9f austria_rec),
      (''41.72.0.1'', detail_block example_format_9f zambia_rec)] =
     Inr [(''41.72.0.1'', detail_block example_format_9f zambia_rec),
          (''193.0.0.1'', detail_block example_format_9f austria_rec)] \<and>
   rec_accuracy_radius zambia_rec = Some 5 \<and>
   detail_block example_format_9f zambia_rec ! 1 = ''Radius(km): 5'' \<and>
   rec_accuracy_radius austria_rec = Some 9 \<and>
   detail_block example_format_9f austria_rec ! 1 = ''Radius(km): 9''"
proof -
  have z: "rec_accuracy_radius zambia_rec = Some 5" by (simp add: zambia_rec_def)
  have a: "rec_accuracy_radius austria_rec = Some 9" by (simp add: austria_rec_def)
  show ?thesis
    by (intro conjI address_run address_sort z a zambia_block(1) austria_block(1))
qed

text \<open>
  C2, amended: the groups of a run are sorted by \<open>sorted_reverse\<close> on the number of
  accumulated entries when grouping by country, state/region or city, and on the third
  line of the detail block when grouping by address, which is the line
  \<open>Country:\<close> with the composed country string of the record, compared as a string; a
  non-empty mapping is printed in that order. For every key, \<open>sorted_reverse\<close> permutes
  the groups, puts them in descending order of the key, and keeps groups of equal key in
  the order the grouping produced.
\<close>

theorem C2_sorted_groups:
  assumes "get_records fmt reader ip_list sp fl g = Inr (result, unknown)"
  shows "(attribute_mode g \<longrightarrow>
            sort_groups g result = Inr (sorted_reverse (\<lambda>x. length (snd x)) result) \<and>
            (result \<noteq> [] \<longrightarrow>
               print_result g result =
                 Inr (print_groups (sorted_reverse (\<lambda>x. length (snd x)) result)))) \<and>
         (\<not> attribute_mode g \<longrightarrow>
            sort_groups g result = Inr (sorted_reverse (\<lambda>x. snd x ! 2) result) \<and>
            (result \<noteq> [] \<longrightarrow>
               print_result g result =
                 Inr (print_groups (sorted_reverse (\<lambda>x. snd x ! 2) result))) \<and>
            (\<forall>(k, vs) \<in> set result.
               \<exists>r. reader k = Inr r \<and> vs ! 2 = ''Country:    '' @ country_full r)) \<and>
         mset (sorted_reverse key result) = mset result \<and>
         sorted_wrt (\<lambda>a b. key b \<le> key a) (sorted_reverse key result) \<and>
         filter (\<lambda>x. key x = v) (sorted_reverse key result) = filter (\<lambda>x. key x = v) result"
proof -
  from assms have d: "distinct (map fst result)" by (rule distinct_keys)
  have a: "attribute_mode g \<longrightarrow>
            sort_groups g result = Inr (sorted_reverse (\<lambda>x. length (snd x)) result) \<and>
            (result \<noteq> [] \<longrightarrow>
               print_result g result =
                 Inr (print_groups (sorted_reverse (\<lambda>x. length (snd x)) result)))"
    using d by (simp add: sort_groups_attribute print_result_def)
  have b: "\<not> attribute_mode g \<longrightarrow>
            sort_groups g result = Inr (sorted_reverse (\<lambda>x. snd x ! 2) result) \<and>
            (result \<noteq> [] \<longrightarrow>
               print_result g result =
                 Inr (print_groups (sorted_reverse (\<lambda>x. snd x ! 2) result))) \<and>
            (\<forall>(k, vs) \<in> set result.
               \<exists>r. reader k = Inr r \<and> vs ! 2 = ''Country:    '' @ country_full r)"
  proof
    assume m: "\<not> attribute_mode g"
    from blocks_of_result [OF m assms]
    have bl: "\<forall>(k, vs) \<in> set result. \<exists>r n. reader k = Inr r \<and>
        vs = concat (replicate (Suc n) (detail_block fmt r))"
      by (simp only: blocks_of_def)
    have third: "\<forall>(k, vs) \<in> set result.
               \<exists>r. reader k = Inr r \<and> vs ! 2 = ''Country:    '' @ country_full r"
    proof (intro ballI, clarify)
      fix k vs
      assume "(k, vs) \<in> set result"
      with bl obtain r n where "reader k = Inr r"
        "vs = concat (replicate (Suc n) (detail_block fmt r))" by blast
      then show "\<exists>r. reader k = Inr r \<and> vs ! 2 = ''Country:    '' @ country_full r"
        using block_lines(1) [of n fmt r] by auto
    qed
    have long: "\<forall>x \<in> set result. 3 \<le> length (snd x)"
    proof
      fix x
      assume x: "x \<in> set result"
      obtain k vs where kv: "x = (k, vs)" by (cases x)
      with x bl obtain r n where "vs = concat (replicate (Suc n) (detail_block fmt r))"
        by blast
      with block_lines(2) [of n fmt r] kv show "3 \<le> length (snd x)" by simp
    qed
    from sort_groups_address [OF m d long]
    have s: "sort_groups g result = Inr (sorted_reverse (\<lambda>x. snd x ! 2) result)" .
    then have "result \<noteq> [] \<longrightarrow>
               print_result g result =
                 Inr (print_groups (sorted_reverse (\<lambda>x. snd x ! 2) result))"
      by (simp add: print_result_def)
    with s third
    show "sort_groups g result = Inr (sorted_reverse (\<lambda>x. snd x ! 2) result) \<and>
            (result \<noteq> [] \<longrightarrow>
               print_result g result =
                 Inr (print_groups (sorted_reverse (\<lambda>x. snd x ! 2) result))) \<and>
            (\<forall>(k, vs) \<in> set result.
               \<exists>r. reader k = Inr r \<and> vs ! 2 = ''Country:    '' @ country_full r)"
      by (intro conjI)
  qed
  from a b mset_sorted_reverse [of key result] sorted_reverse_descending [of key result]
    sorted_reverse_stable [of key v result]
  show ?thesis by (intro conjI)
qed

text \<open>
  C2, two runs: by country, where the group of two addresses comes first, and by address.
\<close>

theorem C2_sorted_groups_witness:
  "get_records example_format_9f example_reader [''41.72.0.1'', ''8.8.8.8'', ''8.8.8.8''] None []
     ''country'' =
     Inr ([(''Zambia (ZM)'', [''41.72.0.1'']),
           (''United States (US)'', [''8.8.8.8'', ''8.8.8.8''])], []) \<and>
   attribute_mode ''country'' \<and>
   sort_groups ''country''
     [(''Zambia (ZM)'', [''41.72.0.1'']), (''United States (US)'', [''8.8.8.8'', ''8.8.8.8''])] =
     Inr [(''United States (US)'', [''8.8.8.8'', ''8.8.8.8'']), (''Zambia (ZM)'', [''41.72.0.1''])] \<and>
   print_result ''country''
     [(''Zambia (ZM)'', [''41.72.0.1'']), (''United States (US)'', [''8.8.8.8'', ''8.8.8.8''])] =
     Inr (print_groups
       [(''United States (US)'', [''8.8.8.8'', ''8.8.8.8'']), (''Zambia (ZM)'', [''41.72.0.1''])]) \<and>
   get_records example_format_9f example_reader [''193.0.0.1'', ''41.72.0.1''] None []
     ''ip_address'' =
     Inr ([(''193.0.0.1'', detail_block example_format_9f austria_rec),
           (''41.72.0.1'', detail_block example_format_9f zambia_rec)], []) \<and>
   \<not> attribute_mode ''ip_address'' \<and>
   sort_groups ''ip_address''
     [(''193.0.0.1'', detail_block example_format_9f austria_rec),
      (''41.72.0.1'', detail_block example_format_9f zambia_rec)] =
     Inr (sorted_reverse (\<lambda>x. snd x ! 2)
       [(''193.0.0.1'', detail_block example_format_9f austria_rec),
        (''41.72.0.1'', detail_block example_format_9f zambia_rec)]) \<and>
   (\<exists>r. example_reader ''193.0.0.1'' = Inr r \<and>
        detail_block example_format_9f austria_rec ! 2 = ''Country:    '' @ country_full r) \<and>
   (\<exists>r. example_reader ''41.72.0.1'' = Inr r \<and>
        detail_block example_format_9f zambia_rec ! 2 = ''Country:    '' @ country_full r)"
proof -
  let ?R1 = "[(''Zambia (ZM)'', [''41.72.0.1'']),
    (''United States (US)'', [''8.8.8.8'', ''8.8.8.8''])]"
  let ?R2 = "[(''193.0.0.1'', detail_block example_format_9f austria_rec),
    (''41.72.0.1'', detail_block example_format_9f zambia_rec)]"
  have m1: "attribute_mode ''country''" by (simp add: attribute_mode_def)
  have m2: "\<not> attribute_mode ''ip_address''" by (simp add: attribute_mode_def)
  from C2_sorted_groups [OF country_run, of "\<lambda>x. length (snd x)" 2] m1
  have 1: "sort_groups ''country'' ?R1 =
      Inr [(''United States (US)'', [''8.8.8.8'', ''8.8.8.8'']), (''Zambia (ZM)'', [''41.72.0.1''])]"
    and 2: "print_result ''country'' ?R1 =
      Inr (print_groups
        [(''United States (US)'', [''8.8.8.8'', ''8.8.8.8'']), (''Zambia (ZM)'', [''41.72.0.1''])])"
    by (simp_all add: country_sort)
  from C2_sorted_groups [OF address_run, of "\<lambda>x. snd x ! 2" "[]"] m2
  have 3: "sort_groups ''ip_address'' ?R2 = Inr (sorted_reverse (\<lambda>x. snd x ! 2) ?R2)"
    and 4: "\<forall>(k, vs) \<in> set ?R2.
      \<exists>r. example_reader k = Inr r \<and> vs ! 2 = ''Country:    '' @ country_full r"
    by blast+
  from 4 have 5: "\<exists>r. example_reader ''193.0.0.1'' = Inr r \<and>
        detail_block example_format_9f austria_rec ! 2 = ''Country:    '' @ country_full r"
    and 6: "\<exists>r. example_reader ''41.72.0.1'' = Inr r \<and>
        detail_block example_format_9f zambia_rec ! 2 = ''Country:    '' @ country_full r"
    by simp_all
  from country_run m1 1 2 address_run m2 3 5 6 show ?thesis by (intro conjI)
qed

section \<open>C3: the first line of the detail block\<close>

text \<open>
  C3 fails on the code: the test of line 160 is on the truth value of the coordinates, so
  a coordinate that is present and 0 gives \<open>Null\<close>. The record of \<open>51.0.0.1\<close> lies on the
  prime meridian, with latitude 51.4779 and longitude 0.
\<close>

theorem C3_zero_coordinate:
  "rec_latitude greenwich_rec = Some 51.4779 \<and> rec_longitude greenwich_rec = Some 0 \<and>
   maps_url example_format_9f greenwich_rec = ''Null'' \<and>
   get_records example_format_9f example_reader [''51.0.0.1''] None [] ''ip_address'' =
     Inr ([(''51.0.0.1'',
            [''Maps URL:   Null'', ''Radius(km): 20'', ''Country:    United Kingdom (GB)'',
             ''State:      England'', ''City:       London''])], [])"
  by (simp add: eval_defs detail_block_def maps_url_def truthy_def radius_def
      str_int_def str_nat.simps digit_char_def)

section \<open>C4: the exclusion set\<close>

text \<open>
  C4: an address that is a member of the exclusion set is skipped before any lookup: the
  round returns to the loop with both accumulators unchanged, whatever the reader would
  answer and whatever the search pattern is. When the run returns, the address is in no
  group of the result mapping and not in the unresolved list, and the section printed for
  \<open>--show-missing\<close> has no line for it.
\<close>

theorem C4_exclusion:
  assumes "ip \<in> set filtered_ips"
  shows "get_records_loop fmt reader (ip # rest) sp filtered_ips g rd unk =
           get_records_loop fmt reader rest sp filtered_ips g rd unk \<and>
         (get_records fmt reader ip_list sp filtered_ips g = Inr (result, unknown) \<longrightarrow>
            ip \<notin> aggregated g result \<and> ip \<notin> set unknown \<and>
            ''     '' @ ip \<notin> set (print_not_found b unknown))"
proof (intro conjI impI)
  show "get_records_loop fmt reader (ip # rest) sp filtered_ips g rd unk =
          get_records_loop fmt reader rest sp filtered_ips g rd unk"
    using assms by (rule loop_excluded)
next
  assume "get_records fmt reader ip_list sp filtered_ips g = Inr (result, unknown)"
  then have run: "get_records_loop fmt reader ip_list sp filtered_ips g [] [] = Inr (result, unknown)"
    by (simp only: get_records_def)
  from aggregated_loop [OF run] contributes_excluded [OF assms]
  show "ip \<notin> aggregated g result"
    by (simp add: aggregated_Nil)
  from unknown_loop [OF run] assms
  show u: "ip \<notin> set unknown"
    by (simp add: unresolved_def)
  show "''     '' @ ip \<notin> set (print_not_found b unknown)"
  proof
    assume "''     '' @ ip \<in> set (print_not_found b unknown)"
    from print_not_found_lines [OF this] u show False by auto
  qed
qed

text \<open>
  C4, a run: \<open>8.8.8.8\<close> is excluded, and the search pattern matches everything.
\<close>

theorem C4_exclusion_witness:
  "''8.8.8.8'' \<in> set [''8.8.8.8''] \<and>
   get_records_loop example_format_9f example_reader (''8.8.8.8'' # [''127.0.0.1''])
      (Some (\<lambda>s. True)) [''8.8.8.8''] ''ip_address'' [] [] =
    get_records_loop example_format_9f example_reader [''127.0.0.1'']
      (Some (\<lambda>s. True)) [''8.8.8.8''] ''ip_address'' [] [] \<and>
   get_records example_format_9f example_reader [''8.8.8.8'', ''127.0.0.1'']
     (Some (\<lambda>s. True)) [''8.8.8.8''] ''ip_address'' = Inr ([], [''127.0.0.1'']) \<and>
   ''8.8.8.8'' \<notin> aggregated ''ip_address'' [] \<and> ''8.8.8.8'' \<notin> set [''127.0.0.1''] \<and>
   ''     '' @ ''8.8.8.8'' \<notin> set (print_not_found True [''127.0.0.1''])"
proof -
  have h: "''8.8.8.8'' \<in> set [''8.8.8.8'']" by simp
  have run: "get_records example_format_9f example_reader [''8.8.8.8'', ''127.0.0.1'']
     (Some (\<lambda>s. True)) [''8.8.8.8''] ''ip_address'' = Inr ([], [''127.0.0.1''])"
    by (simp add: eval_defs)
  from C4_exclusion [OF h] h run show ?thesis by blast
qed

section \<open>C5: missing fields\<close>

text \<open>
  C5 as stated fails for the country ISO code: when it is missing, nothing is rendered for
  it, neither \<open>Unknown\<close> nor \<open>Null\<close>. The record of \<open>10.0.0.1\<close> has no field at all.
\<close>

theorem C5_counterexample:
  "rec_country_iso_code bare_rec = None \<and> country_iso bare_rec = [] \<and>
   get_records example_format_9f example_reader [''10.0.0.1''] None [] ''ip_address'' =
     Inr ([(''10.0.0.1'',
            [''Maps URL:   Null'', ''Radius(km): Null'', ''Country:    Unknown'',
             ''State:      Unknown'', ''City:       Unknown''])], [])"
  by (simp add: eval_defs detail_block_def maps_url_def truthy_def radius_def)

text \<open>
  C5, amended: a missing city, state or country name becomes \<open>Unknown\<close> and a missing
  accuracy radius becomes \<open>Null\<close>; a missing country ISO code is rendered as the empty
  suffix, and one that is present as the code in parentheses after a blank; a field that
  is present is rendered as it is. These are the strings the round of a kept record puts
  into the group key or the detail block.
\<close>

theorem C5_normalized:
  "(rec_city_name rec = None \<longrightarrow> city rec = ''Unknown'') \<and>
   (rec_subdivision_name rec = None \<longrightarrow> state rec = ''Unknown'') \<and>
   (rec_country_name rec = None \<longrightarrow> country_name rec = ''Unknown'') \<and>
   (rec_accuracy_radius rec = None \<longrightarrow> radius rec = ''Null'') \<and>
   (rec_country_iso_code rec = None \<longrightarrow> country_iso rec = [] \<and> country_full rec = country_name rec) \<and>
   (rec_country_iso_code rec = Some c \<longrightarrow> country_full rec = country_name rec @ '' ('' @ c @ '')'') \<and>
   (rec_city_name rec = Some n \<longrightarrow> city rec = n) \<and>
   (rec_subdivision_name rec = Some n \<longrightarrow> state rec = n) \<and>
   (rec_country_name rec = Some n \<longrightarrow> country_name rec = n) \<and>
   (rec_accuracy_radius rec = Some k \<longrightarrow> radius rec = str_int k) \<and>
   (ip \<notin> set fl \<and> reader ip = Inr rec \<and> add_record sp rec ip \<longrightarrow>
      get_records_loop fmt reader (ip # rest) sp fl g rd unk =
      get_records_loop fmt reader rest sp fl g
        (if g = ''country'' then dict_extend rd (country_name rec @ country_iso rec) [ip]
         else if g = ''state/region'' then dict_extend rd (state rec @ country_iso rec) [ip]
         else if g = ''city'' then dict_extend rd (city rec @ country_iso rec) [ip]
         else dict_extend rd ip
           [''Maps URL:   '' @ maps_url fmt rec, ''Radius(km): '' @ radius rec,
            ''Country:    '' @ country_name rec @ country_iso rec,
            ''State:      '' @ state rec, ''City:       '' @ city rec]) unk)"
proof -
  have "ip \<notin> set fl \<and> reader ip = Inr rec \<and> add_record sp rec ip \<longrightarrow>
      get_records_loop fmt reader (ip # rest) sp fl g rd unk =
      get_records_loop fmt reader rest sp fl g (add_to_groups fmt g rec ip rd) unk"
  proof (intro impI, elim conjE)
    assume a: "ip \<notin> set fl" "reader ip = Inr rec" and k: "add_record sp rec ip"
    from k show "get_records_loop fmt reader (ip # rest) sp fl g rd unk =
      get_records_loop fmt reader rest sp fl g (add_to_groups fmt g rec ip rd) unk"
      by (simp only: loop_found [where reader = reader and ip = ip, OF a] if_True)
  qed
  then show ?thesis
    by (simp add: city_def state_def country_name_def radius_def country_iso_def
        country_full_def add_to_groups_def detail_block_def)
qed

text \<open>
  C5, two records: one without any field and one with a country, an ISO code and a
  radius.
\<close>

theorem C5_normalized_witness:
  "rec_city_name bare_rec = None \<and> city bare_rec = ''Unknown'' \<and>
   rec_subdivision_name bare_rec = None \<and> state bare_rec = ''Unknown'' \<and>
   rec_country_name bare_rec = None \<and> country_name bare_rec = ''Unknown'' \<and>
   rec_accuracy_radius bare_rec = None \<and> radius bare_rec = ''Null'' \<and>
   rec_country_iso_code bare_rec = None \<and> country_full bare_rec = ''Unknown'' \<and>
   rec_country_iso_code us_rec = Some ''US'' \<and> country_full us_rec = ''United States (US)'' \<and>
   rec_accuracy_radius us_rec = Some 1000 \<and> radius us_rec = ''1000'' \<and>
   ''10.0.0.1'' \<notin> set [] \<and> example_reader ''10.0.0.1'' = Inr bare_rec \<and>
   add_record None bare_rec ''10.0.0.1'' \<and>
   get_records_loop example_format_9f example_reader [''10.0.0.1''] None []
      ''ip_address'' [] [] =
      Inr ([(''10.0.0.1'',
            [''Maps URL:   Null'', ''Radius(km): Null'', ''Country:    Unknown'',
             ''State:      Unknown'', ''City:       Unknown''])], [])"
proof -
  have e: "''10.0.0.1'' \<notin> set []" "example_reader ''10.0.0.1'' = Inr bare_rec"
    "add_record None bare_rec ''10.0.0.1''"
    by (simp_all add: example_reader_def add_record_def)
  have b: "rec_city_name bare_rec = None" "rec_subdivision_name bare_rec = None"
    "rec_country_name bare_rec = None" "rec_accuracy_radius bare_rec = None"
    "rec_country_iso_code bare_rec = None"
    by (simp_all add: bare_rec_def)
  have u: "rec_country_iso_code us_rec = Some ''US''" "rec_accuracy_radius us_rec = Some 1000"
    "rec_country_name us_rec = Some ''United States''"
    by (simp_all add: us_rec_def)
  have s: "str_int 1000 = ''1000''"
    by (simp add: str_int_def str_nat.simps digit_char_def)
  from C5_normalized [where rec = bare_rec] b
  have 1: "city bare_rec = ''Unknown''" "state bare_rec = ''Unknown''"
    "country_name bare_rec = ''Unknown''" "radius bare_rec = ''Null''"
    "country_full bare_rec = ''Unknown''"
    by simp_all
  from C5_normalized [where rec = us_rec and c = "''US''" and n = "''United States''"
      and k = 1000] u s
  have 2: "country_full us_rec = ''United States (US)''" "radius us_rec = ''1000''"
    by simp_all
  from C5_normalized [where rec = bare_rec and ip = "''10.0.0.1''" and fl = "[]"
      and reader = example_reader and sp = None and rest = "[]" and g = "''ip_address''"
      and rd = "[]" and unk = "[]" and fmt = example_format_9f] 1
  have 3: "get_records_loop example_format_9f example_reader [''10.0.0.1''] None []
      ''ip_address'' [] [] =
      Inr ([(''10.0.0.1'',
            [''Maps URL:   Null'', ''Radius(km): Null'', ''Country:    Unknown'',
             ''State:      Unknown'', ''City:       Unknown''])], [])"
    by (simp add: example_reader_def add_record_def maps_url_def truthy_def bare_rec_def
        country_iso_def)
  from b u 1 2 3 e show ?thesis by simp
qed

section \<open>C6: the search filter\<close>



section \<open>C7: lookups that fail at address level\<close>



section \<open>C8: the limit on a text file\<close>

text \<open>
  C8: for a non-empty text file, a limit of 0 or below leaves the sequence of matches
  as it is, and a limit \<open>N\<close> above 0 keeps the first \<open>N\<close> matches in their order (all of
  them when there are fewer than \<open>N\<close>).
\<close>

theorem C8_limit:
  assumes "arg_ip a = None" and "arg_file a = Some (Text data)" and "data \<noteq> []"
  shows "(arg_limit a \<le> 0 \<longrightarrow> input_ip_list ext a = Inr (re_findall_ips ext data)) \<and>
         (0 < arg_limit a \<longrightarrow>
            input_ip_list ext a = Inr (take (nat (arg_limit a)) (re_findall_ips ext data)) \<and>
            length (take (nat (arg_limit a)) (re_findall_ips ext data)) =
              min (nat (arg_limit a)) (length (re_findall_ips ext data)))"
  using assms by (simp add: input_ip_list_def file_ip_list_def slice_limit_def min.commute)

text \<open>
  C8, three runs on a file with ten matches: limit 3 keeps the first three, limits 0 and
  -5 keep all ten.
\<close>

theorem C8_limit_witness:
  "arg_ip example_args = None \<and>
   arg_file example_args = Some (Text ''8.8.8.8 41.72.0.1 193.0.0.1 51.0.0.1 10.0.0.1 999.1.1.1 127.0.0.1 8.8.4.4 1.1.1.1 9.9.9.9'') \<and>
   ''8.8.8.8 41.72.0.1 193.0.0.1 51.0.0.1 10.0.0.1 999.1.1.1 127.0.0.1 8.8.4.4 1.1.1.1 9.9.9.9'' \<noteq> [] \<and>
   length (re_findall_ips example_externals ''8.8.8.8 41.72.0.1 193.0.0.1 51.0.0.1 10.0.0.1 999.1.1.1 127.0.0.1 8.8.4.4 1.1.1.1 9.9.9.9'') = 10 \<and>
   arg_limit example_args = 3 \<and>
   input_ip_list example_externals example_args = Inr [''8.8.8.8'', ''41.72.0.1'', ''193.0.0.1''] \<and>
   input_ip_list example_externals (example_args\<lparr>arg_limit := 0\<rparr>) =
     Inr (re_findall_ips example_externals ''8.8.8.8 41.72.0.1 193.0.0.1 51.0.0.1 10.0.0.1 999.1.1.1 127.0.0.1 8.8.4.4 1.1.1.1 9.9.9.9'') \<and>
   input_ip_list example_externals (example_args\<lparr>arg_limit := - 5\<rparr>) =
     Inr (re_findall_ips example_externals ''8.8.8.8 41.72.0.1 193.0.0.1 51.0.0.1 10.0.0.1 999.1.1.1 127.0.0.1 8.8.4.4 1.1.1.1 9.9.9.9'')"
proof -
  let ?data = "''8.8.8.8 41.72.0.1 193.0.0.1 51.0.0.1 10.0.0.1 999.1.1.1 127.0.0.1 8.8.4.4 1.1.1.1 9.9.9.9''"
  have w: "re_findall_ips example_externals ?data =
    [''8.8.8.8'', ''41.72.0.1'', ''193.0.0.1'', ''51.0.0.1'', ''10.0.0.1'', ''999.1.1.1'',
     ''127.0.0.1'', ''8.8.4.4'', ''1.1.1.1'', ''9.9.9.9'']"
    by (simp add: example_externals_def words_of_def)
  have h1: "arg_ip example_args = None" by (simp add: example_args_def)
  have h2: "arg_file example_args = Some (Text ?data)" by (simp add: example_args_def)
  have h3: "?data \<noteq> []" by simp
  have l: "arg_limit example_args = 3" by (simp add: example_args_def)
  have h1': "arg_ip (example_args\<lparr>arg_limit := n\<rparr>) = None" for n
    by (simp add: example_args_def)
  have h2': "arg_file (example_args\<lparr>arg_limit := n\<rparr>) = Some (Text ?data)" for n
    by (simp add: example_args_def)
  from C8_limit [OF h1 h2 h3, of example_externals] l w
  have a: "input_ip_list example_externals example_args =
     Inr [''8.8.8.8'', ''41.72.0.1'', ''193.0.0.1'']"
    by (simp add: numeral_3_eq_3)
  from C8_limit [OF h1' h2' h3, of 0 example_externals]
  have b: "input_ip_list example_externals (example_args\<lparr>arg_limit := 0\<rparr>) =
     Inr (re_findall_ips example_externals ?data)" by simp
  from C8_limit [OF h1' h2' h3, of "- 5" example_externals]
  have c: "input_ip_list example_externals (example_args\<lparr>arg_limit := - 5\<rparr>) =
     Inr (re_findall_ips example_externals ?data)" by simp
  from h1 h2 h3 w l a b c show ?thesis by simp
qed

section \<open>C9: the search filter and the unresolved list\<close>

text \<open>
  C9: the unresolved list of a run that returns is the input sequence filtered by
  "not excluded and not found", a condition in which the search pattern does not occur;
  so every such address is listed, and a run with any other search pattern returns the
  same unresolved list.
\<close>

theorem C9_unresolved_ignores_search:
  assumes "get_records fmt reader ip_list sp fl g = Inr (result, unknown)"
  shows "unknown = filter (\<lambda>ip. ip \<notin> set fl \<and> read_record reader ip = Inr None) ip_list \<and>
         (\<forall>ip \<in> set ip_list. ip \<notin> set fl \<and> read_record reader ip = Inr None \<longrightarrow>
            ip \<in> set unknown) \<and>
         (get_records fmt reader ip_list sp' fl g = Inr (result', unknown') \<longrightarrow>
            unknown' = unknown)"
proof -
  from assms have run: "get_records_loop fmt reader ip_list sp fl g [] [] = Inr (result, unknown)"
    by (simp only: get_records_def)
  from unknown_loop [OF run]
  have u: "unknown = filter (\<lambda>ip. ip \<notin> set fl \<and> read_record reader ip = Inr None) ip_list"
    by (simp add: unresolved_def [abs_def])
  have other: "get_records fmt reader ip_list sp' fl g = Inr (result', unknown') \<longrightarrow>
            unknown' = unknown"
  proof
    assume "get_records fmt reader ip_list sp' fl g = Inr (result', unknown')"
    then have "get_records_loop fmt reader ip_list sp' fl g [] [] = Inr (result', unknown')"
      by (simp only: get_records_def)
    from unknown_loop [OF this] unknown_loop [OF run] show "unknown' = unknown" by simp
  qed
  have "\<forall>ip \<in> set ip_list. ip \<notin> set fl \<and> read_record reader ip = Inr None \<longrightarrow>
            ip \<in> set unknown"
    by (subst u) simp
  with u other show ?thesis by blast
qed

text \<open>
  C9, two runs: a pattern that matches nothing and no pattern at all give the same
  unresolved list.
\<close>

theorem C9_unresolved_ignores_search_witness:
  "get_records example_format_9f example_reader [''127.0.0.1'', ''8.8.8.8'']
     (Some (\<lambda>s. False)) [] ''country'' = Inr ([], [''127.0.0.1'']) \<and>
   [''127.0.0.1''] =
      filter (\<lambda>ip. ip \<notin> set [] \<and> read_record example_reader ip = Inr None)
        [''127.0.0.1'', ''8.8.8.8''] \<and>
   ''127.0.0.1'' \<in> set [''127.0.0.1'', ''8.8.8.8''] \<and> ''127.0.0.1'' \<notin> set [] \<and>
   read_record example_reader ''127.0.0.1'' = Inr None \<and>
   ''127.0.0.1'' \<in> set [''127.0.0.1''] \<and>
   get_records example_format_9f example_reader [''127.0.0.1'', ''8.8.8.8''] None []
     ''country'' = Inr ([(''United States (US)'', [''8.8.8.8''])], [''127.0.0.1''])"
proof -
  have run: "get_records example_format_9f example_reader [''127.0.0.1'', ''8.8.8.8'']
     (Some (\<lambda>s. False)) [] ''country'' = Inr ([], [''127.0.0.1''])"
    by (simp add: eval_defs)
  have run': "get_records example_format_9f example_reader [''127.0.0.1'', ''8.8.8.8''] None []
     ''country'' = Inr ([(''United States (US)'', [''8.8.8.8''])], [''127.0.0.1''])"
    by (simp add: eval_defs)
  have e: "''127.0.0.1'' \<in> set [''127.0.0.1'', ''8.8.8.8'']" "''127.0.0.1'' \<notin> set []"
    "read_record example_reader ''127.0.0.1'' = Inr None"
    by (simp_all add: read_record_def example_reader_def)
  note t = C9_unresolved_ignores_search [OF run]
  from t have 1: "[''127.0.0.1''] =
      filter (\<lambda>ip. ip \<notin> set [] \<and> read_record example_reader ip = Inr None)
        [''127.0.0.1'', ''8.8.8.8'']" by blast
  from t e have 2: "''127.0.0.1'' \<in> set [''127.0.0.1'']" by blast
  from run 1 e 2 run' show ?thesis by (intro conjI)
qed

section \<open>C10: the length of the value lists in address mode\<close>

text \<open>
  C10: in address mode the value list of every key of a run has five lines for every
  contributing occurrence of the key in the input, so at least five; the sort key at
  index 2 is in range and the sort returns. \<open>main\<close> never ends in an \<open>IndexError\<close>.
\<close>

theorem C10_block_lengths:
  "(\<not> attribute_mode g \<and> get_records fmt reader ip_list sp fl g = Inr (result, unknown) \<longrightarrow>
      (\<forall>(k, vs) \<in> set result.
         length vs = 5 * length (filter (\<lambda>ip. ip = k \<and> contributes reader sp fl ip) ip_list) \<and>
         5 \<le> length vs) \<and>
      sort_groups g result = Inr (sorted_reverse (\<lambda>x. snd x ! 2) result)) \<and>
   main ext a \<noteq> Inl (Uncaught ''IndexError'')"
proof (intro conjI impI)
  assume "\<not> attribute_mode g \<and> get_records fmt reader ip_list sp fl g = Inr (result, unknown)"
  then have m: "\<not> attribute_mode g"
    and run: "get_records fmt reader ip_list sp fl g = Inr (result, unknown)" by simp_all
  from run have d: "distinct (map fst result)" by (rule distinct_keys)
  from run have loop: "get_records_loop fmt reader ip_list sp fl g [] [] = Inr (result, unknown)"
    by (simp only: get_records_def)
  from blocks_of_result [OF m run]
  have bl: "\<forall>(k, vs) \<in> set result. \<exists>r n. reader k = Inr r \<and>
      vs = concat (replicate (Suc n) (detail_block fmt r))"
    by (simp only: blocks_of_def)
  show "\<forall>(k, vs) \<in> set result.
         length vs = 5 * length (filter (\<lambda>ip. ip = k \<and> contributes reader sp fl ip) ip_list) \<and>
         5 \<le> length vs"
  proof (intro ballI, clarify)
    fix k vs
    assume kv: "(k, vs) \<in> set result"
    from length_loop [OF m loop, of k] dict_get_member [OF d kv]
    have 1: "length vs =
      5 * length (filter (\<lambda>ip. ip = k \<and> contributes reader sp fl ip) ip_list)"
      by (simp add: dict_get_def)
    from kv bl obtain r n where "vs = concat (replicate (Suc n) (detail_block fmt r))"
      by blast
    with block_lines(2) [of n fmt r] have "5 \<le> length vs" by simp
    with 1 show "length vs =
      5 * length (filter (\<lambda>ip. ip = k \<and> contributes reader sp fl ip) ip_list) \<and>
      5 \<le> length vs" by simp
  qed
  have "\<forall>x \<in> set result. 3 \<le> length (snd x)"
  proof
    fix x
    assume x: "x \<in> set result"
    obtain k vs where kv: "x = (k, vs)" by (cases x)
    with x bl obtain r n where "vs = concat (replicate (Suc n) (detail_block fmt r))"
      by blast
    with block_lines(2) [of n fmt r] kv show "3 \<le> length (snd x)" by simp
  qed
  from sort_groups_address [OF m d this]
  show "sort_groups g result = Inr (sorted_reverse (\<lambda>x. snd x ! 2) result)" .
next
  show "main ext a \<noteq> Inl (Uncaught ''IndexError'')"
  proof
    assume "main ext a = Inl (Uncaught ''IndexError'')"
    from main_Inl [OF this] show False by simp
  qed
qed

text \<open>
  C10, a run in which \<open>193.0.0.1\<close> occurs twice: its value list has ten lines.
\<close>

theorem C10_block_lengths_witness:
  "\<not> attribute_mode ''ip_address'' \<and>
   get_records example_format_9f example_reader [''193.0.0.1'', ''41.72.0.1'', ''193.0.0.1'']
     None [] ''ip_address'' =
     Inr ([(''193.0.0.1'',
            detail_block example_format_9f austria_rec @ detail_block example_format_9f austria_rec),
           (''41.72.0.1'', detail_block example_format_9f zambia_rec)], []) \<and>
   length (detail_block example_format_9f austria_rec @
           detail_block example_format_9f austria_rec) =
     5 * length (filter (\<lambda>ip. ip = ''193.0.0.1'' \<and> contributes example_reader None [] ip)
       [''193.0.0.1'', ''41.72.0.1'', ''193.0.0.1'']) \<and>
   5 \<le> length (detail_block example_format_9f austria_rec @
                detail_block example_format_9f austria_rec) \<and>
   length (detail_block example_format_9f zambia_rec) =
     5 * length (filter (\<lambda>ip. ip = ''41.72.0.1'' \<and> contributes example_reader None [] ip)
       [''193.0.0.1'', ''41.72.0.1'', ''193.0.0.1'']) \<and>
   5 \<le> length (detail_block example_format_9f zambia_rec) \<and>
   sort_groups ''ip_address''
     [(''193.0.0.1'',
       detail_block example_format_9f austria_rec @ detail_block example_format_9f austria_rec),
      (''41.72.0.1'', detail_block example_format_9f zambia_rec)] =
     Inr (sorted_reverse (\<lambda>x. snd x ! 2)
       [(''193.0.0.1'',
         detail_block example_format_9f austria_rec @ detail_block example_format_9f austria_rec),
        (''41.72.0.1'', detail_block example_format_9f zambia_rec)]) \<and>
   length (detail_block example_format_9f austria_rec @
           detail_block example_format_9f austria_rec) = 10 \<and>
   main example_externals example_args \<noteq> Inl (Uncaught ''IndexError'')"
proof -
  let ?R = "[(''193.0.0.1'',
       detail_block example_format_9f austria_rec @ detail_block example_format_9f austria_rec),
      (''41.72.0.1'', detail_block example_format_9f zambia_rec)]"
  have m: "\<not> attribute_mode ''ip_address''" by (simp add: attribute_mode_def)
  note t = C10_block_lengths [where g = "''ip_address''" and fmt = example_format_9f
      and reader = example_reader and ip_list = "[''193.0.0.1'', ''41.72.0.1'', ''193.0.0.1'']"
      and sp = None and fl = "[]" and result = ?R and unknown = "[]"
      and ext = example_externals and a = example_args]
  from t m repeated_run
  have 1: "\<forall>(k, vs) \<in> set ?R.
      length vs =
        5 * length (filter (\<lambda>ip. ip = k \<and> contributes example_reader None [] ip)
          [''193.0.0.1'', ''41.72.0.1'', ''193.0.0.1'']) \<and>
      5 \<le> length vs"
    and 2: "sort_groups ''ip_address'' ?R = Inr (sorted_reverse (\<lambda>x. snd x ! 2) ?R)"
    by blast+
  from 1 have a: "length (detail_block example_format_9f austria_rec @
           detail_block example_format_9f austria_rec) =
     5 * length (filter (\<lambda>ip. ip = ''193.0.0.1'' \<and> contributes example_reader None [] ip)
       [''193.0.0.1'', ''41.72.0.1'', ''193.0.0.1''])"
    and b: "5 \<le> length (detail_block example_format_9f austria_rec @
                detail_block example_format_9f austria_rec)"
    and c: "length (detail_block example_format_9f zambia_rec) =
     5 * length (filter (\<lambda>ip. ip = ''41.72.0.1'' \<and> contributes example_reader None [] ip)
       [''193.0.0.1'', ''41.72.0.1'', ''193.0.0.1''])"
    and d: "5 \<le> length (detail_block example_format_9f zambia_rec)"
    by simp_all
  from t have 3: "main example_externals example_args \<noteq> Inl (Uncaught ''IndexError'')"
    by blast
  have 4: "length (detail_block example_format_9f austria_rec @
           detail_block example_format_9f austria_rec) = 10"
    by (simp add: austria_block(3))
  from m repeated_run a b c d 2 4 3 show ?thesis by (intro conjI)
qed

end
